theory Spec2Isabelle
  imports Complex_Main
begin

section \<open>NumPy arrays and the Python store\<close>

text \<open>
  The arrays of the rod are two-dimensional (three rows, one column per node or element).
  An array is modelled by its dtype tag, its number of columns and its rows; its shape is
  (number of rows, number of columns). Array elements are real numbers: the rounding of
  float32 and float64 arithmetic is abstracted away, the dtype is kept as a tag.
\<close>

datatype dtype = Float32 | Float64

datatype error =
    ValueError | AttributeError | IndexError | ZeroDivisionError
  | ConfigurationError | InvalidGeometryError | OutOfDomainError | DanglingReference | NonFinite

record ndarray =
  arr_dtype :: dtype
  arr_ncols :: nat
  arr_rows :: "real list list"

definition shape :: "ndarray \<Rightarrow> nat \<times> nat" where
  "shape a = (length (arr_rows a), arr_ncols a)"

definition wf_array :: "ndarray \<Rightarrow> bool" where
  "wf_array a = list_all (\<lambda>r. length r = arr_ncols a) (arr_rows a)"

text \<open>\<^verbatim>\<open>np.zeros((r, c))\<close> with no dtype argument: float64; a negative dimension raises.\<close>

definition np_zeros :: "int \<times> int \<Rightarrow> error + ndarray" where
  "np_zeros sh =
     (case sh of (r, c) \<Rightarrow>
        if r < 0 \<or> c < 0 then Inl ValueError
        else Inr \<lparr>arr_dtype = Float64, arr_ncols = nat c,
                  arr_rows = replicate (nat r) (replicate (nat c) 0)\<rparr>)"

text \<open>\<^verbatim>\<open>a[..., 1:]\<close> and \<^verbatim>\<open>a[..., :-1]\<close>: slices of the last axis (copies here, the
  source only reads them).\<close>

definition slice_from_1 :: "ndarray \<Rightarrow> ndarray" where
  "slice_from_1 a = a\<lparr>arr_ncols := arr_ncols a - 1, arr_rows := map tl (arr_rows a)\<rparr>"

definition slice_to_m1 :: "ndarray \<Rightarrow> ndarray" where
  "slice_to_m1 a = a\<lparr>arr_ncols := arr_ncols a - 1, arr_rows := map butlast (arr_rows a)\<rparr>"

text \<open>Broadcasting of one axis: a length-one axis is repeated, an equal one is kept.\<close>

definition broadcast_dim :: "nat \<Rightarrow> nat \<Rightarrow> nat option" where
  "broadcast_dim d1 d2 =
     (if d1 = d2 then Some d1 else if d1 = 1 then Some d2 else if d2 = 1 then Some d1 else None)"

definition broadcast_list :: "nat \<Rightarrow> 'a list \<Rightarrow> 'a list" where
  "broadcast_list n xs = (case xs of [x] \<Rightarrow> replicate n x | _ \<Rightarrow> xs)"

definition broadcast_rows :: "nat \<times> nat \<Rightarrow> real list list \<Rightarrow> real list list" where
  "broadcast_rows sh rs = (case sh of (r, c) \<Rightarrow> broadcast_list r (map (broadcast_list c) rs))"

definition promote :: "dtype \<Rightarrow> dtype \<Rightarrow> dtype" where
  "promote d1 d2 = (if d1 = Float32 \<and> d2 = Float32 then Float32 else Float64)"

text \<open>\<^verbatim>\<open>a + b\<close> on arrays: elementwise on the common broadcast shape.\<close>

definition np_add :: "ndarray \<Rightarrow> ndarray \<Rightarrow> error + ndarray" where
  "np_add a b =
     (case (broadcast_dim (length (arr_rows a)) (length (arr_rows b)),
            broadcast_dim (arr_ncols a) (arr_ncols b)) of
        (Some r, Some c) \<Rightarrow>
          Inr \<lparr>arr_dtype = promote (arr_dtype a) (arr_dtype b), arr_ncols = c,
               arr_rows = map2 (map2 (+)) (broadcast_rows (r, c) (arr_rows a))
                                          (broadcast_rows (r, c) (arr_rows b))\<rparr>
      | _ \<Rightarrow> Inl ValueError)"

text \<open>\<^verbatim>\<open>x * a\<close> with a Python float \<open>x\<close>: elementwise, the dtype of the array is kept.\<close>

definition scalar_mul :: "real \<Rightarrow> ndarray \<Rightarrow> ndarray" where
  "scalar_mul x a = a\<lparr>arr_rows := map (map ((*) x)) (arr_rows a)\<rparr>"

text \<open>\<^verbatim>\<open>target[...] = value\<close>: the value is broadcast to the shape of the target and
  written into it; the target keeps its dtype and its shape. A value that cannot be
  broadcast to the target's shape raises.\<close>

definition assign_ellipsis :: "ndarray \<Rightarrow> ndarray \<Rightarrow> error + ndarray" where
  "assign_ellipsis target v =
     (if (length (arr_rows v) = length (arr_rows target) \<or> length (arr_rows v) = 1)
         \<and> (arr_ncols v = arr_ncols target \<or> arr_ncols v = 1)
      then Inr (target\<lparr>arr_rows := broadcast_rows (shape target) (arr_rows v)\<rparr>)
      else Inl ValueError)"

subsection \<open>The rod and the store\<close>

text \<open>
  A rod object has the attributes \<open>n_elems\<close> and \<open>position_collection\<close>; the attribute
  \<open>element_position\<close> is absent (\<open>None\<close>) until something binds it. Attributes that hold
  arrays hold references: addresses into the store, which is the list of all arrays
  allocated so far. The other attributes of the rod are the \<open>more\<close> part of the record.
\<close>

record cosserat_rod =
  n_elems :: int
  position_collection :: nat
  element_position :: "nat option"

record 'r pystate =
  rod :: "'r cosserat_rod_scheme"
  heap :: "ndarray list"

text \<open>A Python reference always points to a live object; for an address outside the store,
  which no Python state has, the model answers \<open>DanglingReference\<close>. A new array gets the
  next free address.\<close>

definition deref :: "'r pystate \<Rightarrow> nat \<Rightarrow> error + ndarray" where
  "deref s a = (if a < length (heap s) then Inr (heap s ! a) else Inl DanglingReference)"

definition alloc :: "ndarray \<Rightarrow> 'r pystate \<Rightarrow> nat \<times> 'r pystate" where
  "alloc a s = (length (heap s), s\<lparr>heap := heap s @ [a]\<rparr>)"

section \<open>CosseratRodFlowInteraction\<close>

text \<open>
  \<^verbatim>\<open>update_rod_element_position\<close>: the right-hand side is evaluated first, from the array
  that \<open>position_collection\<close> refers to; then the attribute \<open>element_position\<close> is looked up
  and the array it refers to is overwritten. The method returns nothing: the model returns
  the new state only.
\<close>

definition update_rod_element_position :: "'r pystate \<Rightarrow> error + 'r pystate" where
  "update_rod_element_position s =
     (case deref s (position_collection (rod s)) of
        Inl e \<Rightarrow> Inl e
      | Inr pc \<Rightarrow>
          (case np_add (slice_from_1 pc) (slice_to_m1 pc) of
             Inl e \<Rightarrow> Inl e
           | Inr sm \<Rightarrow>
               (case element_position (rod s) of
                  None \<Rightarrow> Inl AttributeError
                | Some ep \<Rightarrow>
                    (case deref s ep of
                       Inl e \<Rightarrow> Inl e
                     | Inr target \<Rightarrow>
                         (case assign_ellipsis target (scalar_mul 0.5 sm) of
                            Inl e \<Rightarrow> Inl e
                          | Inr target' \<Rightarrow> Inr (s\<lparr>heap := (heap s)[ep := target']\<rparr>))))))"

text \<open>
  The arguments that \<^verbatim>\<open>CosseratRodFlowInteraction.__init__\<close> receives and hands on unchanged
  to \<^verbatim>\<open>super().__init__\<close>. The two Eulerian fields are references into the store;
  \<open>num_threads = None\<close> stands for the default \<^verbatim>\<open>False\<close>.
\<close>

record interaction_args =
  eul_grid_forcing_field :: nat
  eul_grid_velocity_field :: nat
  virtual_boundary_stiffness_coeff :: real
  virtual_boundary_damping_coeff :: real
  dx :: real
  grid_dim :: int
  real_t :: dtype
  eul_grid_coord_shift :: "real option"
  interp_kernel_width :: "int option"
  enable_eul_grid_forcing_reset :: bool
  num_threads :: "int option"
  start_time :: real

text \<open>
  The statements of \<^verbatim>\<open>__init__\<close> before the call of the base-class initialiser, in
  source order: the two accumulators are allocated, the forcing grid is built, the
  attribute \<open>element_position\<close> of the rod is bound to a new array, and the element
  positions are computed. The result is the locals handed to the base class
  (\<open>body_flow_forces\<close>, \<open>body_flow_torques\<close>, \<open>forcing_grid\<close>) and the state.

  \<open>forcing_grid_cls\<close> is an argument of the constructor; it is called with \<open>grid_dim\<close>, the
  rod (here: the state that holds it) and the keyword arguments, and it may raise. It is
  taken to read the rod only.
\<close>

definition init_locals ::
  "(int \<Rightarrow> 'r pystate \<Rightarrow> 'kw \<Rightarrow> error + 'fg) \<Rightarrow> 'kw \<Rightarrow> interaction_args \<Rightarrow> 'r pystate
     \<Rightarrow> error + ((nat \<times> nat \<times> 'fg) \<times> 'r pystate)" where
  "init_locals forcing_grid_cls forcing_grid_kwargs args s =
     (case np_zeros (3, n_elems (rod s) + 1) of
        Inl e \<Rightarrow> Inl e
      | Inr z1 \<Rightarrow>
          (case alloc z1 s of (body_flow_forces, s1) \<Rightarrow>
          (case np_zeros (3, n_elems (rod s1)) of
             Inl e \<Rightarrow> Inl e
           | Inr z2 \<Rightarrow>
               (case alloc z2 s1 of (body_flow_torques, s2) \<Rightarrow>
               (case forcing_grid_cls (grid_dim args) s2 forcing_grid_kwargs of
                  Inl e \<Rightarrow> Inl e
                | Inr forcing_grid \<Rightarrow>
                    (case np_zeros (3, n_elems (rod s2)) of
                       Inl e \<Rightarrow> Inl e
                     | Inr z3 \<Rightarrow>
                         (case alloc z3 s2 of (a, s3) \<Rightarrow>
                         (case update_rod_element_position
                                 (s3\<lparr>rod := (rod s3)\<lparr>element_position := Some a\<rparr>\<rparr>) of
                            Inl e \<Rightarrow> Inl e
                          | Inr s4 \<Rightarrow>
                              Inr ((body_flow_forces, body_flow_torques, forcing_grid), s4)))))))))"


text \<open>\<open>k\<close> successive calls of the update; the first one that raises ends the sequence.\<close>

fun update_calls :: "nat \<Rightarrow> 'r pystate \<Rightarrow> error + 'r pystate" where
  "update_calls 0 s = Inr s"
| "update_calls (Suc k) s =
     (case update_rod_element_position s of Inl e \<Rightarrow> Inl e | Inr s' \<Rightarrow> update_calls k s')"

subsection \<open>The base class, from the specification\<close>

text \<open>
  Modelled from the spec: the state of the coupling engine \<^verbatim>\<open>ImmersedBodyFlowInteraction\<close>,
  the base class, which is not among the source files. The engine keeps its configuration,
  the two accumulators and the forcing grid.
\<close>

record 'fg flow_interaction =
  config :: interaction_args
  body_flow_forces :: nat
  body_flow_torques :: nat
  forcing_grid :: 'fg



text \<open>
  Modelled from the spec: the integrator of the displacement error in step ComputeForcing
  of the engine, which is not among the source files. For one marker, on vectors of the
  same dimension, the displacement error is advanced by
  \<open>(marker_velocity - interpolated_velocity) * dt\<close>.
\<close>

definition advance_displacement_error :: "real \<Rightarrow> real list \<Rightarrow> real list \<Rightarrow> real list \<Rightarrow> real list" where
  "advance_displacement_error dt displacement_error marker_velocity interpolated_velocity =
     map2 (\<lambda>d m. d + m * dt) displacement_error (map2 (-) marker_velocity interpolated_velocity)"

text \<open>
  Modelled from the spec: the feedback law of step ComputeForcing, which is not among the
  source files. For one marker,
  \<open>marker_forcing = stiffness * displacement_error
                    + damping * (marker_velocity - interpolated_velocity)\<close>.
\<close>

definition marker_forcing :: "real \<Rightarrow> real \<Rightarrow> real list \<Rightarrow> real list \<Rightarrow> real list \<Rightarrow> real list" where
  "marker_forcing stiffness damping displacement_error marker_velocity interpolated_velocity =
     map2 (\<lambda>d m. stiffness * d + damping * m) displacement_error
       (map2 (-) marker_velocity interpolated_velocity)"

section \<open>The driver: flow past a sphere\<close>

text \<open>
  The constants that \<^verbatim>\<open>flow_past_sphere_case\<close> computes before the loop (lines 23 to 42 and
  95 to 100), from the grid size \<open>(grid_size_z, grid_size_y, grid_size_x)\<close> and the Reynolds
  number. The grid sizes are Python integers and the Reynolds number a Python float, so a
  division by zero raises.
\<close>

record case_constants =
  x_range :: real
  far_field_velocity :: real
  sphere_diameter :: real
  nu :: real
  rho_f :: real
  sphere_projected_area :: real
  drag_force_scale :: real
  timescale :: real
  t_end :: real
  foto_timer_limit :: real

definition flow_past_sphere_constants :: "int \<times> int \<times> int \<Rightarrow> real \<Rightarrow> error + case_constants" where
  "flow_past_sphere_constants grid_size reynolds =
     (case grid_size of (grid_size_z, grid_size_y, grid_size_x) \<Rightarrow>
        if grid_size_x = 0 then Inl ZeroDivisionError
        else
          let x_range = 1;
              far_field_velocity = 1;
              sphere_diameter =
                0.4 * real_of_int (min grid_size_z grid_size_y) / real_of_int grid_size_x * x_range
          in if reynolds = 0 then Inl ZeroDivisionError
             else
               let nu = far_field_velocity * sphere_diameter / reynolds;
                   rho_f = 1;
                   sphere_projected_area = 0.25 * pi * sphere_diameter\<^sup>2;
                   drag_force_scale = 0.5 * rho_f * far_field_velocity\<^sup>2 * sphere_projected_area;
                   timescale = sphere_diameter / far_field_velocity;
                   t_end = 10 * timescale
               in Inr \<lparr>x_range = x_range, far_field_velocity = far_field_velocity,
                       sphere_diameter = sphere_diameter, nu = nu, rho_f = rho_f,
                       sphere_projected_area = sphere_projected_area,
                       drag_force_scale = drag_force_scale, timescale = timescale,
                       t_end = t_end, foto_timer_limit = t_end / 40\<rparr>)"

text \<open>
  The flow simulator, the flow interactor and the plotting and saving code are not part of
  the driver: they are the fields of \<open>externals\<close>, acting on a world \<open>'w\<close> that holds their
  objects; each call may raise. \<open>interactor_call\<close> is \<^verbatim>\<open>sphere_flow_interactor()\<close>, and
  \<open>save_snapshot\<close> stands for lines 120 to 156, which save, plot and print.
\<close>

record 'w externals =
  compute_stable_timestep :: "real \<Rightarrow> 'w \<Rightarrow> error + real"
  interactor_time_step :: "real \<Rightarrow> 'w \<Rightarrow> error + 'w"
  interactor_call :: "'w \<Rightarrow> error + 'w"
  flow_sim_time_step :: "real \<Rightarrow> real list \<Rightarrow> 'w \<Rightarrow> error + 'w"
  lag_grid_forcing_field :: "'w \<Rightarrow> real list list"
  save_snapshot :: "real \<Rightarrow> real \<Rightarrow> 'w \<Rightarrow> error + 'w"

text \<open>The calls the driver makes are logged in the order they are made.\<close>

datatype event =
    EvSnapshot real
  | EvStableTimestep
  | EvInteractorTimeStep real
  | EvInteractorCall
  | EvFlowTimeStep real

text \<open>
  The variables of the loop: \<open>sim_t\<close> is the source's \<open>t\<close>, \<open>times\<close> its list \<open>time\<close>.
\<close>

record 'w driver_state =
  sim_t :: real
  foto_timer :: real
  times :: "real list"
  drag_coeffs :: "real list"
  world :: 'w
  trace :: "event list"

text \<open>
  Lines 110 to 156: when the photo timer has run out (or at the start), the timer is
  reset, the drag coefficient is computed from row \<open>x_axis = 0\<close> of the Lagrangian forcing
  field and appended, and a snapshot is saved. With a zero \<open>drag_force_scale\<close> NumPy would
  yield an infinity or a NaN, which is no real number: the model stops there with
  \<open>NonFinite\<close>. An exception leaves the state as it is at that point.
\<close>

definition record_drag ::
  "'w externals \<Rightarrow> case_constants \<Rightarrow> 'w driver_state \<Rightarrow> error option \<times> 'w driver_state" where
  "record_drag ext c st =
     (if foto_timer st > foto_timer_limit c \<or> foto_timer st = 0 then
        (let st1 = st\<lparr>foto_timer := 0\<rparr> in
         case lag_grid_forcing_field ext (world st1) of
           [] \<Rightarrow> (Some IndexError, st1)
         | row # _ \<Rightarrow>
             (if drag_force_scale c = 0 then (Some NonFinite, st1)
              else
                (let drag_force = \<bar>sum_list row\<bar>;
                     drag_coeff = drag_force / drag_force_scale c;
                     st2 = st1\<lparr>times := times st1 @ [sim_t st1],
                               drag_coeffs := drag_coeffs st1 @ [drag_coeff]\<rparr>;
                     st3 = st2\<lparr>trace := trace st2 @ [EvSnapshot (sim_t st2)]\<rparr>
                 in (case save_snapshot ext (sim_t st3) drag_coeff (world st3) of
                       Inl e \<Rightarrow> (Some e, st3)
                     | Inr w \<Rightarrow> (None, st3\<lparr>world := w\<rparr>)))))
      else (None, st))"

text \<open>
  Lines 158 to 168: the stable time step, the two calls of the flow interactor, the step
  of the flow simulator, and the timers.
\<close>

definition coupling_step ::
  "'w externals \<Rightarrow> 'w driver_state \<Rightarrow> error option \<times> 'w driver_state" where
  "coupling_step ext st =
     (let st1 = st\<lparr>trace := trace st @ [EvStableTimestep]\<rparr> in
      case compute_stable_timestep ext 0.25 (world st1) of
        Inl e \<Rightarrow> (Some e, st1)
      | Inr dt \<Rightarrow>
          (let st2 = st1\<lparr>trace := trace st1 @ [EvInteractorTimeStep dt]\<rparr> in
           case interactor_time_step ext dt (world st2) of
             Inl e \<Rightarrow> (Some e, st2)
           | Inr w1 \<Rightarrow>
               (let st3 = st2\<lparr>world := w1, trace := trace st2 @ [EvInteractorCall]\<rparr> in
                case interactor_call ext (world st3) of
                  Inl e \<Rightarrow> (Some e, st3)
                | Inr w2 \<Rightarrow>
                    (let st4 = st3\<lparr>world := w2, trace := trace st3 @ [EvFlowTimeStep dt]\<rparr> in
                     case flow_sim_time_step ext dt [1, 0, 0] (world st4) of
                       Inl e \<Rightarrow> (Some e, st4)
                     | Inr w3 \<Rightarrow>
                         (None, st4\<lparr>world := w3, sim_t := sim_t st4 + dt,
                                    foto_timer := foto_timer st4 + dt\<rparr>)))))"

definition loop_body ::
  "'w externals \<Rightarrow> case_constants \<Rightarrow> 'w driver_state \<Rightarrow> error option \<times> 'w driver_state" where
  "loop_body ext c st =
     (case record_drag ext c st of
        (Some e, st') \<Rightarrow> (Some e, st')
      | (None, st') \<Rightarrow> coupling_step ext st')"

text \<open>
  The loop \<^verbatim>\<open>while t < t_end\<close>. Nothing bounds the number of iterations (the time step
  comes from the flow simulator), so the model counts them down from a given number.
\<close>

datatype outcome = Finished | Raised error | OutOfFuel

fun run_loop ::
  "nat \<Rightarrow> 'w externals \<Rightarrow> case_constants \<Rightarrow> 'w driver_state \<Rightarrow> outcome \<times> 'w driver_state" where
  "run_loop 0 ext c st = (if sim_t st < t_end c then (OutOfFuel, st) else (Finished, st))"
| "run_loop (Suc n) ext c st =
     (if sim_t st < t_end c then
        (case loop_body ext c st of
           (Some e, st') \<Rightarrow> (Raised e, st')
         | (None, st') \<Rightarrow> run_loop n ext c st')
      else (Finished, st))"

text \<open>The state at line 108, before the first iteration, for a world \<open>w\<close> set up by
  the constructors of the simulator and of the interactor.\<close>

definition initial_state :: "'w \<Rightarrow> 'w driver_state" where
  "initial_state w = \<lparr>sim_t = 0, foto_timer = 0, times = [], drag_coeffs = [], world = w, trace = []\<rparr>"

definition flow_past_sphere_case ::
  "nat \<Rightarrow> 'w externals \<Rightarrow> 'w \<Rightarrow> int \<times> int \<times> int \<Rightarrow> real \<Rightarrow> error + (outcome \<times> 'w driver_state)" where
  "flow_past_sphere_case fuel ext w grid_size reynolds =
     (case flow_past_sphere_constants grid_size reynolds of
        Inl e \<Rightarrow> Inl e
      | Inr c \<Rightarrow> Inr (run_loop fuel ext c (initial_state w)))"

text \<open>The calls of the flow interactor among the logged calls.\<close>

fun is_interactor_event :: "event \<Rightarrow> bool" where
  "is_interactor_event (EvInteractorTimeStep dt) = True"
| "is_interactor_event EvInteractorCall = True"
| "is_interactor_event _ = False"

definition interactor_events :: "event list \<Rightarrow> event list" where
  "interactor_events tr = filter is_interactor_event tr"

text \<open>The midpoints of neighbouring entries of one row, used to state results.\<close>

abbreviation midpoint_row :: "real list \<Rightarrow> real list" where
  "midpoint_row row \<equiv> map2 (\<lambda>a b. 0.5 * (a + b)) (tl row) (butlast row)"

text \<open>A rod of two elements: three nodes, and an element-position array of stale values.\<close>

definition rod2 :: "unit pystate" where
  "rod2 = \<lparr>rod = \<lparr>n_elems = 2, position_collection = 0, element_position = Some 1\<rparr>,
     heap = [\<lparr>arr_dtype = Float64, arr_ncols = 3, arr_rows = [[0, 1, 2], [0, 0, 4], [1, 1, 1]]\<rparr>,
             \<lparr>arr_dtype = Float64, arr_ncols = 2, arr_rows = [[9, 9], [9, 9], [9, 9]]\<rparr>]\<rparr>"

text \<open>A rod of two elements as the elastica package makes it, without the attribute
  \<open>element_position\<close>, and the state after the constructor's statements have run on it.\<close>

definition rod0 :: "unit pystate" where
  "rod0 = \<lparr>rod = \<lparr>n_elems = 2, position_collection = 0, element_position = None\<rparr>,
     heap = [\<lparr>arr_dtype = Float64, arr_ncols = 3, arr_rows = [[0, 1, 2], [0, 0, 4], [1, 1, 1]]\<rparr>]\<rparr>"

definition rod0_built :: "unit pystate" where
  "rod0_built = \<lparr>rod = \<lparr>n_elems = 2, position_collection = 0, element_position = Some 3\<rparr>,
     heap = [\<lparr>arr_dtype = Float64, arr_ncols = 3, arr_rows = [[0, 1, 2], [0, 0, 4], [1, 1, 1]]\<rparr>,
             \<lparr>arr_dtype = Float64, arr_ncols = 3, arr_rows = [[0, 0, 0], [0, 0, 0], [0, 0, 0]]\<rparr>,
             \<lparr>arr_dtype = Float64, arr_ncols = 2, arr_rows = [[0, 0], [0, 0], [0, 0]]\<rparr>,
             \<lparr>arr_dtype = Float64, arr_ncols = 2, arr_rows = [[1 / 2, 3 / 2], [0, 2], [1, 1]]\<rparr>]\<rparr>"

text \<open>The arguments of the sphere example (single precision), a variant with a positive
  stiffness, and a forcing-grid class that always constructs.\<close>

definition args0 :: interaction_args where
  "args0 = \<lparr>eul_grid_forcing_field = 0, eul_grid_velocity_field = 0,
     virtual_boundary_stiffness_coeff = - 600000, virtual_boundary_damping_coeff = - 350,
     dx = 1 / 128, grid_dim = 3, real_t = Float32, eul_grid_coord_shift = None,
     interp_kernel_width = None, enable_eul_grid_forcing_reset = False, num_threads = None,
     start_time = 0\<rparr>"


definition grid0 :: "int \<Rightarrow> unit pystate \<Rightarrow> unit \<Rightarrow> error + unit" where
  "grid0 d s kw = Inr ()"





text \<open>The interactor calls of completed coupling steps with the time steps \<open>dts\<close>:
  \<open>time_step(dt)\<close>, then the apply call, for each.\<close>

definition coupling_calls :: "real list \<Rightarrow> event list" where
  "coupling_calls dts = concat (map (\<lambda>dt. [EvInteractorTimeStep dt, EvInteractorCall]) dts)"

text \<open>
  A chain of completed iterations from a state: each state passes the test of the loop
  and its iteration ends, without an exception, in the next state of the list. The time
  steps of such a chain are the increments of \<open>t\<close>.
\<close>

fun completed_iterations ::
  "'w externals \<Rightarrow> case_constants \<Rightarrow> 'w driver_state \<Rightarrow> 'w driver_state list \<Rightarrow> bool" where
  "completed_iterations ext c st [] = True"
| "completed_iterations ext c st (st' # sts) =
     (sim_t st < t_end c \<and> loop_body ext c st = (None, st') \<and> completed_iterations ext c st' sts)"

fun step_dts :: "'w driver_state \<Rightarrow> 'w driver_state list \<Rightarrow> real list" where
  "step_dts st [] = []"
| "step_dts st (st' # sts) = (sim_t st' - sim_t st) # step_dts st' sts"

text \<open>A small run of the driver: a grid of size \<open>(2, 2, 5)\<close> at Reynolds number 100, a
  simulator whose stable time step is always 1, and an interactor whose world counts its
  calls.\<close>

definition ext0 :: "nat externals" where
  "ext0 = \<lparr>compute_stable_timestep = (\<lambda>prefac w. Inr 1),
            interactor_time_step = (\<lambda>dt w. Inr (w + 1)),
            interactor_call = (\<lambda>w. Inr (w + 10)),
            flow_sim_time_step = (\<lambda>dt v w. Inr w),
            lag_grid_forcing_field = (\<lambda>w. [[3, - 5], [0, 0], [0, 0]]),
            save_snapshot = (\<lambda>t d w. Inr w)\<rparr>"

definition c0 :: case_constants where
  "c0 = \<lparr>x_range = 1, far_field_velocity = 1, sphere_diameter = 4 / 25, nu = 1 / 625, rho_f = 1,
          sphere_projected_area = 0.25 * pi * (4 / 25)\<^sup>2,
          drag_force_scale = 0.5 * 1 * 1\<^sup>2 * (0.25 * pi * (4 / 25)\<^sup>2),
          timescale = 4 / 25, t_end = 8 / 5, foto_timer_limit = 1 / 25\<rparr>"

text \<open>The states of that run after its first and after its second iteration.\<close>

definition state1 :: "nat driver_state" where
  "state1 = \<lparr>sim_t = 1, foto_timer = 1, times = [0], drag_coeffs = [625 / pi], world = 11,
     trace = [EvSnapshot 0, EvStableTimestep, EvInteractorTimeStep 1, EvInteractorCall,
              EvFlowTimeStep 1]\<rparr>"

definition state2 :: "nat driver_state" where
  "state2 = \<lparr>sim_t = 2, foto_timer = 1, times = [0, 1], drag_coeffs = [625 / pi, 625 / pi],
     world = 22,
     trace = [EvSnapshot 0, EvStableTimestep, EvInteractorTimeStep 1, EvInteractorCall,
              EvFlowTimeStep 1, EvSnapshot 1, EvStableTimestep, EvInteractorTimeStep 1,
              EvInteractorCall, EvFlowTimeStep 1]\<rparr>"

text \<open>The same run with an interactor whose apply call raises, and the state in which
  its first iteration stops.\<close>

definition ext_raising :: "nat externals" where
  "ext_raising = ext0\<lparr>interactor_call := (\<lambda>w. Inl OutOfDomainError)\<rparr>"

definition state_raised :: "nat driver_state" where
  "state_raised = \<lparr>sim_t = 0, foto_timer = 0, times = [0], drag_coeffs = [625 / pi], world = 1,
     trace = [EvSnapshot 0, EvStableTimestep, EvInteractorTimeStep 1, EvInteractorCall]\<rparr>"

section \<open>Properties of the array operations\<close>

lemma broadcast_list_same: "length xs = n \<Longrightarrow> broadcast_list n xs = xs"
  by (auto simp: broadcast_list_def split: list.splits)

lemma broadcast_rows_same:
  "length rs = r \<Longrightarrow> \<forall>x\<in>set rs. length x = c \<Longrightarrow> broadcast_rows (r, c) rs = rs"
  by (simp add: broadcast_rows_def broadcast_list_same map_idI)

lemma broadcast_dim_same: "broadcast_dim d d = Some d"
  by (simp add: broadcast_dim_def)

lemma map2_map_same: "map2 h (map f xs) (map g xs) = map (\<lambda>x. h (f x) (g x)) xs"
  by (induction xs) auto

lemma np_add_slices:
  assumes "wf_array pc"
  shows "np_add (slice_from_1 pc) (slice_to_m1 pc) =
     Inr \<lparr>arr_dtype = arr_dtype pc, arr_ncols = arr_ncols pc - 1,
          arr_rows = map (\<lambda>row. map2 (+) (tl row) (butlast row)) (arr_rows pc)\<rparr>"
proof -
  have len: "\<forall>x\<in>set (arr_rows pc). length x = arr_ncols pc"
    using assms by (simp add: wf_array_def list_all_iff)
  have b1: "broadcast_rows (length (arr_rows pc), arr_ncols pc - 1) (map tl (arr_rows pc)) = map tl (arr_rows pc)"
    using len by (intro broadcast_rows_same) auto
  have b2: "broadcast_rows (length (arr_rows pc), arr_ncols pc - 1) (map butlast (arr_rows pc)) = map butlast (arr_rows pc)"
    using len by (intro broadcast_rows_same) auto
  have m: "map2 (map2 (+)) (map tl (arr_rows pc)) (map butlast (arr_rows pc)) = map (\<lambda>row. map2 (+) (tl row) (butlast row)) (arr_rows pc)"
    by (rule map2_map_same)
  show ?thesis
    using b1 b2 m
    by (cases "arr_dtype pc")
       (simp_all add: np_add_def slice_from_1_def slice_to_m1_def broadcast_dim_same promote_def)
qed

lemma scalar_mul_sum_rows:
  "scalar_mul x \<lparr>arr_dtype = d, arr_ncols = c,
       arr_rows = map (\<lambda>row. map2 (+) (tl row) (butlast row)) rs\<rparr> =
   \<lparr>arr_dtype = d, arr_ncols = c,
       arr_rows = map (\<lambda>row. map2 (\<lambda>a b. x * (a + b)) (tl row) (butlast row)) rs\<rparr>"
  by (simp add: scalar_mul_def case_prod_unfold)

lemma assign_ellipsis_matching:
  assumes "length (arr_rows v) = length (arr_rows t)" and "arr_ncols v = arr_ncols t"
      and "wf_array v"
  shows "assign_ellipsis t v = Inr (t\<lparr>arr_rows := arr_rows v\<rparr>)"
proof -
  have "broadcast_rows (shape t) (arr_rows v) = arr_rows v"
    unfolding shape_def using assms
    by (intro broadcast_rows_same) (simp_all add: wf_array_def list_all_iff)
  then show ?thesis
    using assms by (simp add: assign_ellipsis_def)
qed

lemma update_rod_element_position_matching:
  assumes ep: "element_position (rod s) = Some ep" "ep < length (heap s)"
      and p: "position_collection (rod s) < length (heap s)"
      and wf: "wf_array (heap s ! position_collection (rod s))"
      and sh: "length (arr_rows (heap s ! ep)) = length (arr_rows (heap s ! position_collection (rod s)))"
              "arr_ncols (heap s ! ep) = arr_ncols (heap s ! position_collection (rod s)) - 1"
  shows "update_rod_element_position s =
     Inr (s\<lparr>heap := (heap s)[ep := (heap s ! ep)\<lparr>arr_rows :=
            map midpoint_row (arr_rows (heap s ! position_collection (rod s)))\<rparr>]\<rparr>)"
proof -
  let ?pc = "heap s ! position_collection (rod s)"
  let ?v = "\<lparr>arr_dtype = arr_dtype ?pc, arr_ncols = arr_ncols ?pc - 1,
             arr_rows = map midpoint_row (arr_rows ?pc)\<rparr>"
  have len: "\<forall>x\<in>set (arr_rows ?pc). length x = arr_ncols ?pc"
    using wf by (simp add: wf_array_def list_all_iff)
  have "wf_array ?v"
    using len by (simp add: wf_array_def list_all_iff)
  then have "assign_ellipsis (heap s ! ep) ?v = Inr ((heap s ! ep)\<lparr>arr_rows := arr_rows ?v\<rparr>)"
    using sh by (intro assign_ellipsis_matching) simp_all
  then show ?thesis
    using ep p
    by (simp add: update_rod_element_position_def deref_def np_add_slices [OF wf]
        scalar_mul_sum_rows)
qed

lemma midpoint_row_nth:
  "i < length row - 1 \<Longrightarrow> midpoint_row row ! i = 0.5 * (row ! Suc i + row ! i)"
  by (simp add: nth_tl nth_butlast)

section \<open>The kinematic update\<close>

text \<open>
  C1. For a rod of \<open>n\<close> elements whose node positions have shape \<open>(r, n + 1)\<close> and whose
  element positions have shape \<open>(r, n)\<close> (\<open>r = 3\<close> for a Cosserat rod), the update succeeds
  and writes, for every row \<open>k\<close> and every element \<open>i < n\<close>, the value
  \<open>0.5 * (position_collection[k, i + 1] + position_collection[k, i])\<close>. It mutates in place:
  no attribute of the rod is rebound, the element-position array stays at its address with
  its shape and dtype, and no other array of the store changes.
\<close>

theorem update_rod_element_position_midpoint:
  assumes "n_elems (rod s) = int n"
      and "position_collection (rod s) = p" and "p < length (heap s)"
      and "element_position (rod s) = Some ep" and "ep < length (heap s)"
      and "wf_array (heap s ! p)"
      and "shape (heap s ! p) = (r, n + 1)" and "shape (heap s ! ep) = (r, n)"
  shows "\<exists>s'. update_rod_element_position s = Inr s'
           \<and> rod s' = rod s
           \<and> length (heap s') = length (heap s)
           \<and> (\<forall>a < length (heap s). a \<noteq> ep \<longrightarrow> heap s' ! a = heap s ! a)
           \<and> shape (heap s' ! ep) = (r, n)
           \<and> arr_dtype (heap s' ! ep) = arr_dtype (heap s ! ep)
           \<and> (\<forall>k < r. \<forall>i < n.
                 arr_rows (heap s' ! ep) ! k ! i =
                 0.5 * (arr_rows (heap s ! p) ! k ! (i + 1) + arr_rows (heap s ! p) ! k ! i))"
proof -
  let ?pc = "heap s ! p"
  let ?s' = "s\<lparr>heap := (heap s)[ep := (heap s ! ep)\<lparr>arr_rows := map midpoint_row (arr_rows ?pc)\<rparr>]\<rparr>"
  have rows: "length (arr_rows ?pc) = r" and cols: "arr_ncols ?pc = n + 1"
    and erows: "length (arr_rows (heap s ! ep)) = r" and ecols: "arr_ncols (heap s ! ep) = n"
    using assms by (simp_all add: shape_def)
  have upd: "update_rod_element_position s = Inr ?s'"
    using update_rod_element_position_matching [of s ep] assms rows cols erows ecols by simp
  have len: "\<And>k. k < r \<Longrightarrow> length (arr_rows ?pc ! k) = n + 1"
    using assms(6) rows cols by (simp add: wf_array_def list_all_length)
  have mid: "arr_rows (heap ?s' ! ep) ! k ! i =
      0.5 * (arr_rows ?pc ! k ! (i + 1) + arr_rows ?pc ! k ! i)" if "k < r" and "i < n" for k i
  proof -
    have "arr_rows (heap ?s' ! ep) ! k = midpoint_row (arr_rows ?pc ! k)"
      using assms(5) rows that by simp
    moreover have "i < length (arr_rows ?pc ! k) - 1"
      using len that by simp
    ultimately show ?thesis
      by (simp only: midpoint_row_nth Suc_eq_plus1)
  qed
  have "shape (heap ?s' ! ep) = (r, n)"
    using assms(5) rows ecols by (simp add: shape_def)
  moreover have "arr_dtype (heap ?s' ! ep) = arr_dtype (heap s ! ep)"
    using assms(5) by simp
  ultimately show ?thesis
    using upd mid by (intro exI [of _ ?s']) simp
qed

theorem update_rod_element_position_midpoint_witness:
  "n_elems (rod rod2) = int 2 \<and> wf_array (heap rod2 ! 0) \<and>
   shape (heap rod2 ! 0) = (3, 2 + 1) \<and> shape (heap rod2 ! 1) = (3, 2) \<and>
   (\<exists>s'. update_rod_element_position rod2 = Inr s'
           \<and> rod s' = rod rod2
           \<and> length (heap s') = length (heap rod2)
           \<and> (\<forall>a < length (heap rod2). a \<noteq> 1 \<longrightarrow> heap s' ! a = heap rod2 ! a)
           \<and> shape (heap s' ! 1) = (3, 2)
           \<and> arr_dtype (heap s' ! 1) = arr_dtype (heap rod2 ! 1)
           \<and> (\<forall>k < 3. \<forall>i < 2.
                 arr_rows (heap s' ! 1) ! k ! i =
                 0.5 * (arr_rows (heap rod2 ! 0) ! k ! (i + 1) + arr_rows (heap rod2 ! 0) ! k ! i)))"
proof -
  have h: "n_elems (rod rod2) = int 2" "position_collection (rod rod2) = 0"
    "0 < length (heap rod2)" "element_position (rod rod2) = Some 1" "1 < length (heap rod2)"
    "wf_array (heap rod2 ! 0)" "shape (heap rod2 ! 0) = (3, 2 + 1)" "shape (heap rod2 ! 1) = (3, 2)"
    by (simp_all add: rod2_def wf_array_def shape_def)
  from update_rod_element_position_midpoint [OF h] h show ?thesis
    by blast
qed

section \<open>Frame of the update, and a second call\<close>

lemma length_broadcast_list:
  "length xs = n \<or> length xs = 1 \<Longrightarrow> length (broadcast_list n xs) = n"
  by (auto simp: broadcast_list_def length_Suc_conv split: list.splits)

lemma assign_ellipsis_shape:
  assumes "assign_ellipsis t v = Inr t'"
  shows "arr_dtype t' = arr_dtype t" and "arr_ncols t' = arr_ncols t"
    and "length (arr_rows t') = length (arr_rows t)"
    and "t' = t\<lparr>arr_rows := broadcast_rows (shape t) (arr_rows v)\<rparr>"
  using assms
  by (auto simp: assign_ellipsis_def shape_def broadcast_rows_def length_broadcast_list
           split: if_splits)

lemma update_rod_element_position_frame:
  assumes "update_rod_element_position s = Inr s'"
  shows "\<exists>ep t. element_position (rod s) = Some ep \<and> ep < length (heap s)
           \<and> position_collection (rod s) < length (heap s)
           \<and> s' = s\<lparr>heap := (heap s)[ep := t]\<rparr>
           \<and> arr_dtype t = arr_dtype (heap s ! ep)
           \<and> shape t = shape (heap s ! ep)"
  using assms
  by (auto simp: update_rod_element_position_def deref_def shape_def
           split: sum.splits option.splits if_splits dest: assign_ellipsis_shape(1,2,3))

lemma np_zeros_Inr:
  "np_zeros (r, c) = Inr z \<longleftrightarrow>
     0 \<le> r \<and> 0 \<le> c \<and> z = \<lparr>arr_dtype = Float64, arr_ncols = nat c,
                                arr_rows = replicate (nat r) (replicate (nat c) 0)\<rparr>"
  by (auto simp: np_zeros_def)

lemma init_locals_Inr:
  assumes "init_locals fgc kw args s = Inr ((ff, ft, fg), s')"
  defines "n \<equiv> n_elems (rod s)"
  defines "zs c \<equiv> \<lparr>arr_dtype = Float64, arr_ncols = c, arr_rows = replicate 3 (replicate c 0)\<rparr>"
  defines "s2 \<equiv> s\<lparr>heap := heap s @ [zs (nat n + 1), zs (nat n)]\<rparr>"
  shows "0 \<le> n \<and> ff = length (heap s) \<and> ft = length (heap s) + 1
        \<and> fgc (grid_dim args) s2 kw = Inr fg
        \<and> update_rod_element_position
            (s\<lparr>heap := heap s @ [zs (nat n + 1), zs (nat n), zs (nat n)],
               rod := (rod s)\<lparr>element_position := Some (length (heap s) + 2)\<rparr>\<rparr>) = Inr s'"
  using assms(1) unfolding n_def zs_def s2_def
  by (auto simp: init_locals_def alloc_def np_zeros_Inr nat_add_distrib
           split: sum.splits prod.splits)

lemma update_rod_element_position_cases:
  assumes "update_rod_element_position s = Inr s'"
  obtains ep sm t' where
    "position_collection (rod s) < length (heap s)"
    "np_add (slice_from_1 (heap s ! position_collection (rod s)))
            (slice_to_m1 (heap s ! position_collection (rod s))) = Inr sm"
    "element_position (rod s) = Some ep" "ep < length (heap s)"
    "assign_ellipsis (heap s ! ep) (scalar_mul 0.5 sm) = Inr t'"
    "s' = s\<lparr>heap := (heap s)[ep := t']\<rparr>"
  using assms
  by (auto simp: update_rod_element_position_def deref_def
           split: sum.splits option.splits if_splits)

lemma assign_ellipsis_again:
  assumes "assign_ellipsis t v = Inr t'"
  shows "assign_ellipsis t' v = Inr t'"
proof -
  note sh = assign_ellipsis_shape [OF assms]
  have "shape t' = shape t"
    using sh(2,3) by (simp add: shape_def)
  moreover have "t'\<lparr>arr_rows := broadcast_rows (shape t) (arr_rows v)\<rparr> = t'"
    by (subst (1 2) sh(4)) simp
  ultimately show ?thesis
    using assms sh(2,3) by (simp add: assign_ellipsis_def split: if_splits)
qed

lemma update_twice_distinct:
  assumes "update_rod_element_position s = Inr s'"
      and "element_position (rod s) \<noteq> Some (position_collection (rod s))"
  shows "update_rod_element_position s' = Inr s'"
proof -
  from assms(1) obtain ep sm t' where
    p: "position_collection (rod s) < length (heap s)"
    and sm: "np_add (slice_from_1 (heap s ! position_collection (rod s)))
            (slice_to_m1 (heap s ! position_collection (rod s))) = Inr sm"
    and ep: "element_position (rod s) = Some ep" "ep < length (heap s)"
    and t': "assign_ellipsis (heap s ! ep) (scalar_mul 0.5 sm) = Inr t'"
    and s': "s' = s\<lparr>heap := (heap s)[ep := t']\<rparr>"
    by (rule update_rod_element_position_cases)
  have ne: "ep \<noteq> position_collection (rod s)"
    using assms(2) ep by auto
  show ?thesis
    using p sm ep ne assign_ellipsis_again [OF t']
    by (simp add: update_rod_element_position_def deref_def s')
qed

lemma update_rod_element_position_wf:
  assumes "position_collection (rod s) < length (heap s)"
      and "wf_array (heap s ! position_collection (rod s))"
      and "element_position (rod s) = Some ep" and "ep < length (heap s)"
  shows "update_rod_element_position s =
     (case assign_ellipsis (heap s ! ep)
             \<lparr>arr_dtype = arr_dtype (heap s ! position_collection (rod s)),
              arr_ncols = arr_ncols (heap s ! position_collection (rod s)) - 1,
              arr_rows = map midpoint_row (arr_rows (heap s ! position_collection (rod s)))\<rparr> of
        Inl e \<Rightarrow> Inl e
      | Inr t' \<Rightarrow> Inr (s\<lparr>heap := (heap s)[ep := t']\<rparr>))"
  using assms(1,3,4)
  by (simp add: update_rod_element_position_def deref_def np_add_slices [OF assms(2)]
      scalar_mul_sum_rows)

lemma midpoint_broadcast_fixed:
  assumes "length row = c" and "c = 0 \<or> c = 2"
  shows "length (broadcast_list c (midpoint_row row)) = c"
    and "broadcast_list c (midpoint_row (broadcast_list c (midpoint_row row))) =
         broadcast_list c (midpoint_row row)"
  using assms
  by (auto simp: broadcast_list_def length_Suc_conv numeral_2_eq_2)

lemma assign_midpoints_alias:
  assumes wf: "wf_array pc"
      and asg: "assign_ellipsis pc \<lparr>arr_dtype = arr_dtype pc, arr_ncols = arr_ncols pc - 1,
                  arr_rows = map midpoint_row (arr_rows pc)\<rparr> = Inr t'"
  shows "wf_array t'"
    and "assign_ellipsis t' \<lparr>arr_dtype = arr_dtype t', arr_ncols = arr_ncols t' - 1,
                  arr_rows = map midpoint_row (arr_rows t')\<rparr> = Inr t'"
proof -
  let ?c = "arr_ncols pc"
  let ?g = "\<lambda>row. broadcast_list ?c (midpoint_row row)"
  have len: "\<forall>x\<in>set (arr_rows pc). length x = ?c"
    using wf by (simp add: wf_array_def list_all_iff)
  have c: "?c = 0 \<or> ?c = 2"
    using asg by (auto simp: assign_ellipsis_def split: if_splits)
  have t': "t' = pc\<lparr>arr_rows := map ?g (arr_rows pc)\<rparr>"
    using assign_ellipsis_shape(4) [OF asg]
    by (simp add: shape_def broadcast_rows_def broadcast_list_same)
  have g: "length (?g row) = ?c" "?g (?g row) = ?g row" if "row \<in> set (arr_rows pc)" for row
    using midpoint_broadcast_fixed [of row ?c] len c that by auto
  show "wf_array t'"
    using g(1) by (simp add: t' wf_array_def list_all_iff)
  have "map ?g (map ?g (arr_rows pc)) = map ?g (arr_rows pc)"
    using g(2) by (simp add: comp_def)
  then have "broadcast_rows (shape t') (map midpoint_row (arr_rows t')) = arr_rows t'"
    by (simp add: t' shape_def broadcast_rows_def broadcast_list_same comp_def)
  then show "assign_ellipsis t' \<lparr>arr_dtype = arr_dtype t', arr_ncols = arr_ncols t' - 1,
                  arr_rows = map midpoint_row (arr_rows t')\<rparr> = Inr t'"
    using c by (auto simp: assign_ellipsis_def t')
qed

lemma update_twice_alias:
  assumes "update_rod_element_position s = Inr s'"
      and "element_position (rod s) = Some (position_collection (rod s))"
      and "wf_array (heap s ! position_collection (rod s))"
  shows "update_rod_element_position s' = Inr s'"
proof -
  let ?p = "position_collection (rod s)"
  from update_rod_element_position_frame [OF assms(1)]
  have p: "?p < length (heap s)"
    by auto
  from assms(1) update_rod_element_position_wf [OF p assms(3) assms(2) p]
  obtain t' where asg: "assign_ellipsis (heap s ! ?p)
             \<lparr>arr_dtype = arr_dtype (heap s ! ?p), arr_ncols = arr_ncols (heap s ! ?p) - 1,
              arr_rows = map midpoint_row (arr_rows (heap s ! ?p))\<rparr> = Inr t'"
    and s': "s' = s\<lparr>heap := (heap s)[?p := t']\<rparr>"
    by (auto split: sum.splits)
  note again = assign_midpoints_alias [OF assms(3) asg]
  have rod': "position_collection (rod s') = ?p" "element_position (rod s') = Some ?p"
    and p': "?p < length (heap s')" and h': "heap s' ! ?p = t'"
    using s' assms(2) p by simp_all
  have "update_rod_element_position s' = Inr (s'\<lparr>heap := (heap s')[?p := t']\<rparr>)"
    using update_rod_element_position_wf [of s' ?p] rod' p' h' again by simp
  then show ?thesis
    by (simp add: s')
qed

lemma update_twice:
  assumes "update_rod_element_position s = Inr s'"
      and "element_position (rod s) = Some (position_collection (rod s))
           \<longrightarrow> wf_array (heap s ! position_collection (rod s))"
  shows "update_rod_element_position s' = Inr s'"
  using assms update_twice_alias update_twice_distinct by blast

lemma init_locals_accumulators:
  assumes "init_locals fgc kw args s = Inr ((ff, ft, fg), s')"
  shows "0 \<le> n_elems (rod s)" and "ff = length (heap s)" and "ft = length (heap s) + 1"
    and "length (heap s') = length (heap s) + 3"
    and "heap s' ! ff = \<lparr>arr_dtype = Float64, arr_ncols = nat (n_elems (rod s)) + 1,
            arr_rows = replicate 3 (replicate (nat (n_elems (rod s)) + 1) 0)\<rparr>"
    and "heap s' ! ft = \<lparr>arr_dtype = Float64, arr_ncols = nat (n_elems (rod s)),
            arr_rows = replicate 3 (replicate (nat (n_elems (rod s))) 0)\<rparr>"
    and "rod s' = (rod s)\<lparr>element_position := Some (length (heap s) + 2)\<rparr>"
    and "take (length (heap s)) (heap s') = heap s"
    and "shape (heap s' ! (length (heap s) + 2)) = (3, nat (n_elems (rod s)))"
    and "update_rod_element_position s' = Inr s'"
proof -
  let ?n = "nat (n_elems (rod s))"
  let ?zs = "\<lambda>c. \<lparr>arr_dtype = Float64, arr_ncols = c, arr_rows = replicate 3 (replicate c 0)\<rparr>"
  let ?s4 = "s\<lparr>heap := heap s @ [?zs (?n + 1), ?zs ?n, ?zs ?n],
               rod := (rod s)\<lparr>element_position := Some (length (heap s) + 2)\<rparr>\<rparr>"
  from init_locals_Inr [OF assms]
  show n: "0 \<le> n_elems (rod s)" and ff: "ff = length (heap s)" and ft: "ft = length (heap s) + 1"
    by simp_all
  from init_locals_Inr [OF assms]
  have upd: "update_rod_element_position ?s4 = Inr s'"
    by simp
  from update_rod_element_position_frame [OF upd]
  obtain t where s': "s' = ?s4\<lparr>heap := (heap ?s4)[length (heap s) + 2 := t]\<rparr>"
    and t: "shape t = shape (heap ?s4 ! (length (heap s) + 2))"
    by auto
  show "length (heap s') = length (heap s) + 3"
    and "heap s' ! ff = ?zs (?n + 1)" and "heap s' ! ft = ?zs ?n"
    and "rod s' = (rod s)\<lparr>element_position := Some (length (heap s) + 2)\<rparr>"
    and "take (length (heap s)) (heap s') = heap s"
    using s' ff ft by (simp_all add: nth_append)
  show "shape (heap s' ! (length (heap s) + 2)) = (3, ?n)"
    using t by (simp add: s' nth_append shape_def)
  have "wf_array (heap ?s4 ! (length (heap s) + 2))"
    by (simp add: nth_append wf_array_def list_all_iff)
  then have "element_position (rod ?s4) = Some (position_collection (rod ?s4))
      \<longrightarrow> wf_array (heap ?s4 ! position_collection (rod ?s4))"
    by auto
  then show "update_rod_element_position s' = Inr s'"
    by (rule update_twice [OF upd])
qed

section \<open>The constructor\<close>


lemma init_locals_rod0: "init_locals grid0 () args0 rod0 = Inr ((1, 2, ()), rod0_built)"
  by (simp add: init_locals_def rod0_def rod0_built_def args0_def grid0_def np_zeros_def alloc_def
      update_rod_element_position_def deref_def np_add_def slice_from_1_def slice_to_m1_def
      broadcast_dim_def broadcast_rows_def broadcast_list_def promote_def scalar_mul_def
      assign_ellipsis_def shape_def numeral_3_eq_3 numeral_2_eq_2)




lemma update_rod2:
  "update_rod_element_position rod2 = Inr (rod2\<lparr>heap := (heap rod2)[1 :=
      \<lparr>arr_dtype = Float64, arr_ncols = 2, arr_rows = [[1 / 2, 3 / 2], [0, 2], [1, 1]]\<rparr>]\<rparr>)"
  by (simp add: rod2_def update_rod_element_position_def deref_def np_add_def slice_from_1_def
      slice_to_m1_def broadcast_dim_def broadcast_rows_def broadcast_list_def promote_def
      scalar_mul_def assign_ellipsis_def shape_def)

section \<open>What the engine does to the body\<close>

text \<open>
  C3, as stated, fails: the rod \<open>rod0\<close> has no attribute \<open>element_position\<close> before the
  constructor's statements run and has one after them, so an attribute of the body has
  been added; and the update overwrites the array that this attribute of the rod refers to.
\<close>

theorem body_read_only_counterexample:
  "init_locals grid0 () args0 rod0 = Inr ((1, 2, ()), rod0_built)
   \<and> element_position (rod rod0) = None
   \<and> element_position (rod rod0_built) = Some 3
   \<and> rod rod0_built \<noteq> rod rod0
   \<and> update_rod_element_position rod2 = Inr (rod2\<lparr>heap := (heap rod2)[1 :=
        \<lparr>arr_dtype = Float64, arr_ncols = 2, arr_rows = [[1 / 2, 3 / 2], [0, 2], [1, 1]]\<rparr>]\<rparr>)
   \<and> heap rod2 ! 1 \<noteq>
        \<lparr>arr_dtype = Float64, arr_ncols = 2, arr_rows = [[1 / 2, 3 / 2], [0, 2], [1, 1]]\<rparr>"
  using init_locals_rod0 update_rod2 by (simp add: rod0_def rod0_built_def rod2_def)

text \<open>
  C3, amended. The statements of the constructor bind the attribute \<open>element_position\<close> of
  the rod to a newly allocated array; every other attribute of the rod, and every array
  that existed before, is left as it was. The update rebinds no attribute of the rod and
  writes into no array but the one that \<open>element_position\<close> refers to.
\<close>

theorem body_mutation_confined:
  "(init_locals fgc kw args s = Inr (l, s') \<longrightarrow>
      rod s' = (rod s)\<lparr>element_position := Some (length (heap s) + 2)\<rparr>
      \<and> take (length (heap s)) (heap s') = heap s)
   \<and> (update_rod_element_position u = Inr u' \<longrightarrow>
      rod u' = rod u \<and> length (heap u') = length (heap u)
      \<and> (\<exists>ep. element_position (rod u) = Some ep
            \<and> (\<forall>a. a \<noteq> ep \<longrightarrow> heap u' ! a = heap u ! a)))"
proof (intro conjI impI)
  assume "init_locals fgc kw args s = Inr (l, s')"
  then have h: "init_locals fgc kw args s = Inr ((fst l, fst (snd l), snd (snd l)), s')"
    by simp
  show "rod s' = (rod s)\<lparr>element_position := Some (length (heap s) + 2)\<rparr>"
    and "take (length (heap s)) (heap s') = heap s"
    using init_locals_accumulators(7,8) [OF h] by simp_all
next
  assume upd: "update_rod_element_position u = Inr u'"
  from update_rod_element_position_frame [OF upd]
  obtain ep t where ep: "element_position (rod u) = Some ep"
    and u': "u' = u\<lparr>heap := (heap u)[ep := t]\<rparr>"
    by auto
  show "rod u' = rod u" and "length (heap u') = length (heap u)"
    by (simp_all add: u')
  show "\<exists>ep. element_position (rod u) = Some ep \<and> (\<forall>a. a \<noteq> ep \<longrightarrow> heap u' ! a = heap u ! a)"
    using ep by (simp add: u')
qed

theorem body_mutation_confined_witness:
  "init_locals grid0 () args0 rod0 = Inr ((1, 2, ()), rod0_built)
   \<and> rod rod0_built = (rod rod0)\<lparr>element_position := Some 3\<rparr>
   \<and> take 1 (heap rod0_built) = heap rod0
   \<and> (\<exists>u'. update_rod_element_position rod2 = Inr u'
         \<and> rod u' = rod rod2 \<and> heap u' ! 0 = heap rod2 ! 0)"
proof -
  obtain u' where u': "update_rod_element_position rod2 = Inr u'"
    using update_rod2 by simp
  have ep: "element_position (rod rod2) = Some 1"
    by (simp add: rod2_def)
  from body_mutation_confined [of grid0 "()" args0 rod0 "(1, 2, ())" rod0_built rod2 u']
    init_locals_rod0 u' ep
  show ?thesis
    by (auto simp: rod0_def)
qed

section \<open>Validation of the coupling coefficients\<close>






section \<open>Shape of the element positions, and repeated updates\<close>

lemma update_calls_fixed:
  "update_rod_element_position s = Inr s \<Longrightarrow> update_calls k s = Inr s"
  by (induction k) simp_all

lemma update_calls_shape:
  "update_calls k s = Inr s' \<Longrightarrow> element_position (rod s) = Some ep \<Longrightarrow>
     element_position (rod s') = Some ep \<and> shape (heap s' ! ep) = shape (heap s ! ep)
     \<and> length (heap s') = length (heap s)"
proof (induction k arbitrary: s)
  case 0
  then show ?case by simp
next
  case (Suc k)
  from Suc.prems(1) obtain s1 where u: "update_rod_element_position s = Inr s1"
    and rest: "update_calls k s1 = Inr s'"
    by (auto split: sum.splits)
  from update_rod_element_position_frame [OF u] Suc.prems(2)
  obtain t where lt: "ep < length (heap s)" and s1: "s1 = s\<lparr>heap := (heap s)[ep := t]\<rparr>"
    and t: "shape t = shape (heap s ! ep)"
    by auto
  have "element_position (rod s1) = Some ep" and "shape (heap s1 ! ep) = shape (heap s ! ep)"
    and "length (heap s1) = length (heap s)"
    using Suc.prems(2) lt t by (simp_all add: s1)
  with Suc.IH [OF rest] show ?case
    by simp
qed

text \<open>
  C7. After construction, \<open>element_position\<close> refers to an array of shape \<open>(3, n_elems)\<close>, and
  any number of update calls succeeds and leaves the reference and the shape as they are.
  From any state at all, update calls that succeed keep the reference and the shape of
  the array.
\<close>

theorem element_position_shape_fixed:
  "(init_locals fgc kw args s = Inr (l, s1) \<longrightarrow>
      (\<exists>a. element_position (rod s1) = Some a \<and> a < length (heap s1)
         \<and> shape (heap s1 ! a) = (3, nat (n_elems (rod s)))
         \<and> (\<forall>k. \<exists>s2. update_calls k s1 = Inr s2 \<and> element_position (rod s2) = Some a
                \<and> shape (heap s2 ! a) = (3, nat (n_elems (rod s))))))
   \<and> (update_calls k u = Inr u' \<and> element_position (rod u) = Some ep \<longrightarrow>
        element_position (rod u') = Some ep \<and> shape (heap u' ! ep) = shape (heap u ! ep))"
proof (intro conjI impI)
  assume "init_locals fgc kw args s = Inr (l, s1)"
  then have h: "init_locals fgc kw args s = Inr ((fst l, fst (snd l), snd (snd l)), s1)"
    by simp
  note acc = init_locals_accumulators [OF h]
  let ?a = "length (heap s) + 2"
  have "element_position (rod s1) = Some ?a" and "?a < length (heap s1)"
    and "shape (heap s1 ! ?a) = (3, nat (n_elems (rod s)))"
    using acc(4,7,9) by simp_all
  moreover have "update_calls k s1 = Inr s1" for k
    using acc(10) by (rule update_calls_fixed)
  ultimately show "\<exists>a. element_position (rod s1) = Some a \<and> a < length (heap s1)
         \<and> shape (heap s1 ! a) = (3, nat (n_elems (rod s)))
         \<and> (\<forall>k. \<exists>s2. update_calls k s1 = Inr s2 \<and> element_position (rod s2) = Some a
                \<and> shape (heap s2 ! a) = (3, nat (n_elems (rod s))))"
    by auto
next
  assume "update_calls k u = Inr u' \<and> element_position (rod u) = Some ep"
  then show "element_position (rod u') = Some ep" and "shape (heap u' ! ep) = shape (heap u ! ep)"
    using update_calls_shape [of k u u' ep] by simp_all
qed

theorem element_position_shape_fixed_witness:
  "init_locals grid0 () args0 rod0 = Inr ((1, 2, ()), rod0_built)
   \<and> (\<exists>a. element_position (rod rod0_built) = Some a \<and> a < length (heap rod0_built)
         \<and> shape (heap rod0_built ! a) = (3, nat (n_elems (rod rod0)))
         \<and> (\<forall>k. \<exists>s2. update_calls k rod0_built = Inr s2 \<and> element_position (rod s2) = Some a
                \<and> shape (heap s2 ! a) = (3, nat (n_elems (rod rod0)))))
   \<and> (\<exists>u'. update_calls 2 rod2 = Inr u' \<and> element_position (rod rod2) = Some 1
         \<and> element_position (rod u') = Some 1 \<and> shape (heap u' ! 1) = shape (heap rod2 ! 1))"
proof -
  have "update_rod_element_position rod2 \<noteq> Inl e" for e
    using update_rod2 by simp
  moreover have "wf_array (heap rod2 ! position_collection (rod rod2))"
    by (simp add: rod2_def wf_array_def)
  ultimately obtain u' where u': "update_calls 2 rod2 = Inr u'"
    using update_twice [of rod2]
    by (cases "update_rod_element_position rod2") (auto simp: numeral_2_eq_2)
  have ep: "element_position (rod rod2) = Some 1"
    by (simp add: rod2_def)
  from element_position_shape_fixed [of grid0 "()" args0 rod0 "(1, 2, ())" rod0_built 2 rod2 u' 1]
    init_locals_rod0 u' ep
  show ?thesis
    by blast
qed

text \<open>
  C10. Two successive calls of the update give what one call gives: the same state, or the
  same exception. The node-position array is taken to be well formed (all rows of the
  length the array records).
\<close>

theorem update_rod_element_position_idempotent:
  assumes "wf_array (heap s ! position_collection (rod s))"
  shows "update_calls 2 s = update_calls 1 s
       \<and> (update_rod_element_position s = Inr s' \<longrightarrow> update_rod_element_position s' = Inr s')"
proof -
  have again: "update_rod_element_position s' = Inr s'"
    if "update_rod_element_position s = Inr s'" for s'
    using update_twice [OF that] assms by simp
  then have "update_calls (Suc (Suc 0)) s = update_calls (Suc 0) s"
    by (cases "update_rod_element_position s") simp_all
  then show ?thesis
    using again by (simp add: numeral_2_eq_2)
qed

theorem update_rod_element_position_idempotent_witness:
  "wf_array (heap rod2 ! position_collection (rod rod2))
   \<and> update_calls 2 rod2 = update_calls 1 rod2
   \<and> update_calls 1 rod2 = Inr (rod2\<lparr>heap := (heap rod2)[1 :=
        \<lparr>arr_dtype = Float64, arr_ncols = 2, arr_rows = [[1 / 2, 3 / 2], [0, 2], [1, 1]]\<rparr>]\<rparr>)"
proof -
  have h: "wf_array (heap rod2 ! position_collection (rod rod2))"
    by (simp add: rod2_def wf_array_def)
  from update_rod_element_position_idempotent [OF h] h update_rod2 show ?thesis
    by simp
qed

section \<open>The feedback law\<close>

lemma map2_minus_same: "map2 (-) v v = replicate (length v) (0::real)"
  by (induction v) simp_all

text \<open>
  C8, on the feedback law as the specification states it. When the marker velocity equals
  the interpolated velocity and the displacement error is zero, the marker forcing is
  zero; the displacement error stays zero when it is advanced, so the forcing is zero
  whether it is computed before or after that.
\<close>

theorem zero_mismatch_fixed_point:
  assumes "marker_velocity = interpolated_velocity"
      and "displacement_error = replicate (length marker_velocity) 0"
  shows "marker_forcing stiffness damping displacement_error marker_velocity interpolated_velocity
           = replicate (length marker_velocity) 0
       \<and> advance_displacement_error dt displacement_error marker_velocity interpolated_velocity
           = displacement_error
       \<and> marker_forcing stiffness damping
           (advance_displacement_error dt displacement_error marker_velocity interpolated_velocity)
           marker_velocity interpolated_velocity
           = replicate (length marker_velocity) 0"
proof -
  have z: "map2 f (replicate n (0::real)) (replicate n 0) = replicate n (f 0 0)" for f :: "real \<Rightarrow> real \<Rightarrow> real" and n
    by (induction n) simp_all
  show ?thesis
    unfolding assms marker_forcing_def advance_displacement_error_def map2_minus_same
    by (simp add: z)
qed

theorem zero_mismatch_fixed_point_witness:
  "marker_forcing (- 100) (- 10) [0, 0, 0] [1, 0, 0] [1, 0, 0] = [0, 0, 0]
   \<and> advance_displacement_error (1 / 100) [0, 0, 0] [1, 0, 0] [1, 0, 0] = [0, 0, 0]"
  using zero_mismatch_fixed_point [of "[1, 0, 0]" "[1, 0, 0]" "[0, 0, 0]" "- 100" "- 10" "1 / 100"]
  by (simp add: numeral_3_eq_3)

section \<open>The driver loop\<close>

lemma record_drag_trace:
  assumes "record_drag ext c st = (r, st')"
  shows "interactor_events (trace st') = interactor_events (trace st)"
    and "sim_t st' = sim_t st"
  using assms
  by (auto simp: record_drag_def interactor_events_def Let_def
           split: if_splits list.splits sum.splits)

lemma record_drag_sim_t:
  "record_drag ext c st = (r, st1) \<Longrightarrow> sim_t st1 = sim_t st"
  by (auto simp: record_drag_def Let_def split: if_splits list.splits sum.splits)

lemma coupling_step_completed:
  assumes "coupling_step ext st1 = (None, st')"
  shows "\<exists>dt w1 w2. compute_stable_timestep ext 0.25 (world st1) = Inr dt
           \<and> interactor_time_step ext dt (world st1) = Inr w1
           \<and> interactor_call ext w1 = Inr w2
           \<and> flow_sim_time_step ext dt [1, 0, 0] w2 = Inr (world st')
           \<and> trace st' = trace st1 @
                [EvStableTimestep, EvInteractorTimeStep dt, EvInteractorCall, EvFlowTimeStep dt]
           \<and> sim_t st' = sim_t st1 + dt"
  using assms
  by (auto simp: coupling_step_def Let_def split: sum.splits)

lemma coupling_step_raised:
  assumes "coupling_step ext st1 = (Some e, st')"
  shows "world st' = world st1 \<and> trace st' = trace st1 @ [EvStableTimestep]
           \<and> compute_stable_timestep ext 0.25 (world st1) = Inl e
       \<or> (\<exists>dt. compute_stable_timestep ext 0.25 (world st1) = Inr dt
             \<and> interactor_time_step ext dt (world st1) = Inl e \<and> world st' = world st1
             \<and> trace st' = trace st1 @ [EvStableTimestep, EvInteractorTimeStep dt])
       \<or> (\<exists>dt w1. compute_stable_timestep ext 0.25 (world st1) = Inr dt
             \<and> interactor_time_step ext dt (world st1) = Inr w1
             \<and> interactor_call ext w1 = Inl e \<and> world st' = w1
             \<and> trace st' = trace st1 @
                  [EvStableTimestep, EvInteractorTimeStep dt, EvInteractorCall])
       \<or> (\<exists>dt w1 w2. compute_stable_timestep ext 0.25 (world st1) = Inr dt
             \<and> interactor_time_step ext dt (world st1) = Inr w1
             \<and> interactor_call ext w1 = Inr w2
             \<and> flow_sim_time_step ext dt [1, 0, 0] w2 = Inl e \<and> world st' = w2
             \<and> trace st' = trace st1 @
                  [EvStableTimestep, EvInteractorTimeStep dt, EvInteractorCall, EvFlowTimeStep dt])"
  using assms
  by (auto simp: coupling_step_def Let_def split: sum.splits)

lemma loop_body_completed:
  assumes "loop_body ext c st = (None, st')"
  shows "\<exists>st1 dt w1 w2. record_drag ext c st = (None, st1)
           \<and> compute_stable_timestep ext 0.25 (world st1) = Inr dt
           \<and> interactor_time_step ext dt (world st1) = Inr w1
           \<and> interactor_call ext w1 = Inr w2
           \<and> flow_sim_time_step ext dt [1, 0, 0] w2 = Inr (world st')
           \<and> trace st' = trace st1 @
                [EvStableTimestep, EvInteractorTimeStep dt, EvInteractorCall, EvFlowTimeStep dt]
           \<and> interactor_events (trace st') =
                interactor_events (trace st) @ [EvInteractorTimeStep dt, EvInteractorCall]
           \<and> sim_t st' = sim_t st + dt"
proof -
  obtain r1 st1 where rd: "record_drag ext c st = (r1, st1)"
    by (cases "record_drag ext c st")
  with assms have r1: "r1 = None" and cs: "coupling_step ext st1 = (None, st')"
    by (auto simp: loop_body_def split: option.splits)
  from coupling_step_completed [OF cs] obtain dt w1 w2 where
    k: "compute_stable_timestep ext 0.25 (world st1) = Inr dt"
       "interactor_time_step ext dt (world st1) = Inr w1"
       "interactor_call ext w1 = Inr w2"
       "flow_sim_time_step ext dt [1, 0, 0] w2 = Inr (world st')"
       "trace st' = trace st1 @
          [EvStableTimestep, EvInteractorTimeStep dt, EvInteractorCall, EvFlowTimeStep dt]"
       "sim_t st' = sim_t st1 + dt"
    by blast
  have "interactor_events (trace st') =
      interactor_events (trace st) @ [EvInteractorTimeStep dt, EvInteractorCall]"
    using k(5) record_drag_trace(1) [OF rd] by (simp add: interactor_events_def)
  moreover have "sim_t st' = sim_t st + dt"
    using k(6) record_drag_sim_t [OF rd] by simp
  ultimately show ?thesis
    using rd r1 k(1-5) by blast
qed

lemma completed_iterations_events:
  "completed_iterations ext c st sts \<Longrightarrow>
     interactor_events (trace (last (st # sts))) =
       interactor_events (trace st) @ coupling_calls (step_dts st sts)"
proof (induction sts arbitrary: st)
  case Nil
  then show ?case by (simp add: coupling_calls_def)
next
  case (Cons st' sts)
  then have lb: "loop_body ext c st = (None, st')" and rest: "completed_iterations ext c st' sts"
    by simp_all
  from loop_body_completed [OF lb] obtain dt where
    "interactor_events (trace st') =
       interactor_events (trace st) @ [EvInteractorTimeStep dt, EvInteractorCall]"
    and "sim_t st' = sim_t st + dt"
    by blast
  with Cons.IH [OF rest] show ?case
    by (simp add: coupling_calls_def)
qed

lemma run_loop_iterations:
  "run_loop n ext c st0 = (out, st1) \<Longrightarrow>
     \<exists>sts. completed_iterations ext c st0 sts \<and> length sts \<le> n
        \<and> (case out of
              Finished \<Rightarrow> st1 = last (st0 # sts) \<and> \<not> sim_t st1 < t_end c
            | OutOfFuel \<Rightarrow> st1 = last (st0 # sts) \<and> length sts = n \<and> sim_t st1 < t_end c
            | Raised e \<Rightarrow> sim_t (last (st0 # sts)) < t_end c
                \<and> loop_body ext c (last (st0 # sts)) = (Some e, st1))"
proof (induction n arbitrary: st0)
  case 0
  then show ?case
    by (intro exI [of _ "[]"]) (auto split: if_splits)
next
  case (Suc n)
  show ?case
  proof (cases "sim_t st0 < t_end c")
    case False
    with Suc.prems show ?thesis
      by (intro exI [of _ "[]"]) auto
  next
    case True
    obtain r st' where lb: "loop_body ext c st0 = (r, st')"
      by (cases "loop_body ext c st0")
    show ?thesis
    proof (cases r)
      case (Some e)
      with Suc.prems True lb show ?thesis
        by (intro exI [of _ "[]"]) auto
    next
      case None
      with Suc.prems True lb have "run_loop n ext c st' = (out, st1)"
        by simp
      from Suc.IH [OF this] obtain sts where
        "completed_iterations ext c st' sts" "length sts \<le> n"
        "case out of
              Finished \<Rightarrow> st1 = last (st' # sts) \<and> \<not> sim_t st1 < t_end c
            | OutOfFuel \<Rightarrow> st1 = last (st' # sts) \<and> length sts = n \<and> sim_t st1 < t_end c
            | Raised e \<Rightarrow> sim_t (last (st' # sts)) < t_end c
                \<and> loop_body ext c (last (st' # sts)) = (Some e, st1)"
        by blast
      with True lb None show ?thesis
        by (intro exI [of _ "st' # sts"]) (auto split: outcome.splits)
    qed
  qed
qed

lemma loop_body_raised:
  assumes "loop_body ext c st = (Some e, st')"
  shows "record_drag ext c st = (Some e, st')
       \<or> (\<exists>st1. record_drag ext c st = (None, st1) \<and> coupling_step ext st1 = (Some e, st'))"
  using assms
  by (cases "record_drag ext c st") (auto simp: loop_body_def split: option.splits)

text \<open>
  C5. In an iteration of the loop that completes, the world goes through exactly one
  \<open>time_step(dt)\<close> of the flow interactor and then exactly one apply call of it, with the
  time step \<open>dt\<close> that the simulator gave, before the simulator's own step; the log shows
  these two calls, in this order, and no other call of the interactor. An iteration that
  an exception ends has made a prefix of these calls, never the apply call without
  \<open>time_step\<close> before it. A run of the loop is a chain of completed iterations, each entered
  with \<open>t < t_end\<close>: its interactor calls are one such pair per iteration; the run ends when
  \<open>t < t_end\<close> fails, when an iteration raises, or (in the model) when the count of
  iterations is used up.
\<close>

theorem coupling_calls_once_per_iteration:
  "(loop_body ext c st = (None, st') \<longrightarrow>
      (\<exists>st1 dt w1 w2. record_drag ext c st = (None, st1)
           \<and> compute_stable_timestep ext 0.25 (world st1) = Inr dt
           \<and> interactor_time_step ext dt (world st1) = Inr w1
           \<and> interactor_call ext w1 = Inr w2
           \<and> flow_sim_time_step ext dt [1, 0, 0] w2 = Inr (world st')
           \<and> trace st' = trace st1 @
                [EvStableTimestep, EvInteractorTimeStep dt, EvInteractorCall, EvFlowTimeStep dt]
           \<and> interactor_events (trace st') =
                interactor_events (trace st) @ [EvInteractorTimeStep dt, EvInteractorCall]
           \<and> sim_t st' = sim_t st + dt))
   \<and> (loop_body ext c st = (Some e, st') \<longrightarrow>
      (interactor_events (trace st') = interactor_events (trace st)
         \<and> (record_drag ext c st = (Some e, st')
              \<or> (\<exists>st1. record_drag ext c st = (None, st1) \<and> world st' = world st1
                    \<and> compute_stable_timestep ext 0.25 (world st1) = Inl e)))
       \<or> (\<exists>st1 dt. record_drag ext c st = (None, st1)
             \<and> compute_stable_timestep ext 0.25 (world st1) = Inr dt
             \<and> interactor_time_step ext dt (world st1) = Inl e \<and> world st' = world st1
             \<and> interactor_events (trace st') =
                  interactor_events (trace st) @ [EvInteractorTimeStep dt])
       \<or> (\<exists>st1 dt w1. record_drag ext c st = (None, st1)
             \<and> compute_stable_timestep ext 0.25 (world st1) = Inr dt
             \<and> interactor_time_step ext dt (world st1) = Inr w1
             \<and> interactor_events (trace st') =
                  interactor_events (trace st) @ [EvInteractorTimeStep dt, EvInteractorCall]
             \<and> (interactor_call ext w1 = Inl e \<and> world st' = w1
                  \<or> (\<exists>w2. interactor_call ext w1 = Inr w2
                        \<and> flow_sim_time_step ext dt [1, 0, 0] w2 = Inl e \<and> world st' = w2))))
   \<and> (run_loop n ext c st0 = (out, stn) \<longrightarrow>
      (\<exists>sts. completed_iterations ext c st0 sts \<and> length sts \<le> n
         \<and> interactor_events (trace (last (st0 # sts))) =
              interactor_events (trace st0) @ coupling_calls (step_dts st0 sts)
         \<and> (case out of
               Finished \<Rightarrow> stn = last (st0 # sts) \<and> \<not> sim_t stn < t_end c
             | OutOfFuel \<Rightarrow> stn = last (st0 # sts) \<and> length sts = n \<and> sim_t stn < t_end c
             | Raised x \<Rightarrow> sim_t (last (st0 # sts)) < t_end c
                 \<and> loop_body ext c (last (st0 # sts)) = (Some x, stn))))"
proof (intro conjI impI)
  assume "loop_body ext c st = (None, st')"
  then show "\<exists>st1 dt w1 w2. record_drag ext c st = (None, st1)
           \<and> compute_stable_timestep ext 0.25 (world st1) = Inr dt
           \<and> interactor_time_step ext dt (world st1) = Inr w1
           \<and> interactor_call ext w1 = Inr w2
           \<and> flow_sim_time_step ext dt [1, 0, 0] w2 = Inr (world st')
           \<and> trace st' = trace st1 @
                [EvStableTimestep, EvInteractorTimeStep dt, EvInteractorCall, EvFlowTimeStep dt]
           \<and> interactor_events (trace st') =
                interactor_events (trace st) @ [EvInteractorTimeStep dt, EvInteractorCall]
           \<and> sim_t st' = sim_t st + dt"
    by (rule loop_body_completed)
next
  assume lb: "loop_body ext c st = (Some e, st')"
  let ?goal = "(interactor_events (trace st') = interactor_events (trace st)
         \<and> (record_drag ext c st = (Some e, st')
              \<or> (\<exists>st1. record_drag ext c st = (None, st1) \<and> world st' = world st1
                    \<and> compute_stable_timestep ext 0.25 (world st1) = Inl e)))
       \<or> (\<exists>st1 dt. record_drag ext c st = (None, st1)
             \<and> compute_stable_timestep ext 0.25 (world st1) = Inr dt
             \<and> interactor_time_step ext dt (world st1) = Inl e \<and> world st' = world st1
             \<and> interactor_events (trace st') =
                  interactor_events (trace st) @ [EvInteractorTimeStep dt])
       \<or> (\<exists>st1 dt w1. record_drag ext c st = (None, st1)
             \<and> compute_stable_timestep ext 0.25 (world st1) = Inr dt
             \<and> interactor_time_step ext dt (world st1) = Inr w1
             \<and> interactor_events (trace st') =
                  interactor_events (trace st) @ [EvInteractorTimeStep dt, EvInteractorCall]
             \<and> (interactor_call ext w1 = Inl e \<and> world st' = w1
                  \<or> (\<exists>w2. interactor_call ext w1 = Inr w2
                        \<and> flow_sim_time_step ext dt [1, 0, 0] w2 = Inl e \<and> world st' = w2)))"
  from loop_body_raised [OF lb] show ?goal
  proof
    assume rd: "record_drag ext c st = (Some e, st')"
    then show ?goal
      using record_drag_trace(1) [OF rd] by simp
  next
    assume "\<exists>st1. record_drag ext c st = (None, st1) \<and> coupling_step ext st1 = (Some e, st')"
    then obtain st1 where rd: "record_drag ext c st = (None, st1)"
      and cs: "coupling_step ext st1 = (Some e, st')"
      by blast
    note ie = record_drag_trace(1) [OF rd]
    from coupling_step_raised [OF cs] show ?goal
      using rd ie by (elim disjE exE conjE) (simp_all add: interactor_events_def)
  qed
next
  assume run: "run_loop n ext c st0 = (out, stn)"
  from run_loop_iterations [OF run] obtain sts where
    ch: "completed_iterations ext c st0 sts" and "length sts \<le> n"
    and "case out of
               Finished \<Rightarrow> stn = last (st0 # sts) \<and> \<not> sim_t stn < t_end c
             | OutOfFuel \<Rightarrow> stn = last (st0 # sts) \<and> length sts = n \<and> sim_t stn < t_end c
             | Raised x \<Rightarrow> sim_t (last (st0 # sts)) < t_end c
                 \<and> loop_body ext c (last (st0 # sts)) = (Some x, stn)"
    by blast
  with completed_iterations_events [OF ch]
  show "\<exists>sts. completed_iterations ext c st0 sts \<and> length sts \<le> n
         \<and> interactor_events (trace (last (st0 # sts))) =
              interactor_events (trace st0) @ coupling_calls (step_dts st0 sts)
         \<and> (case out of
               Finished \<Rightarrow> stn = last (st0 # sts) \<and> \<not> sim_t stn < t_end c
             | OutOfFuel \<Rightarrow> stn = last (st0 # sts) \<and> length sts = n \<and> sim_t stn < t_end c
             | Raised x \<Rightarrow> sim_t (last (st0 # sts)) < t_end c
                 \<and> loop_body ext c (last (st0 # sts)) = (Some x, stn))"
    by blast
qed

lemma loop_body_initial:
  "loop_body ext0 c0 (initial_state 0) = (None, state1)"
  by (simp add: loop_body_def record_drag_def coupling_step_def ext0_def c0_def initial_state_def
      state1_def Let_def power2_eq_square)

lemma loop_body_state1:
  "loop_body ext0 c0 state1 = (None, state2)"
  by (simp add: loop_body_def record_drag_def coupling_step_def ext0_def c0_def state1_def
      state2_def Let_def power2_eq_square)

lemma loop_body_raising:
  "loop_body ext_raising c0 (initial_state 0) = (Some OutOfDomainError, state_raised)"
  by (simp add: loop_body_def record_drag_def coupling_step_def ext_raising_def ext0_def c0_def
      initial_state_def state_raised_def Let_def power2_eq_square)

lemma run_loop_initial:
  "run_loop (Suc (Suc (Suc 0))) ext0 c0 (initial_state 0) = (Finished, state2)"
proof -
  have "sim_t (initial_state (0::nat)) < t_end c0" and "sim_t state1 < t_end c0"
    and "\<not> sim_t state2 < t_end c0"
    by (simp_all add: initial_state_def state1_def state2_def c0_def)
  then show ?thesis
    by (simp add: loop_body_initial loop_body_state1)
qed

theorem coupling_calls_once_per_iteration_witness:
  "loop_body ext0 c0 (initial_state 0) = (None, state1)
   \<and> interactor_time_step ext0 1 0 = Inr 1 \<and> interactor_call ext0 1 = Inr 11
   \<and> world state1 = 11
   \<and> interactor_events (trace state1) = [EvInteractorTimeStep 1, EvInteractorCall]
   \<and> (\<exists>st1 w1 w2. record_drag ext0 c0 (initial_state 0) = (None, st1)
         \<and> interactor_time_step ext0 1 (world st1) = Inr w1
         \<and> interactor_call ext0 w1 = Inr w2
         \<and> flow_sim_time_step ext0 1 [1, 0, 0] w2 = Inr (world state1))
   \<and> loop_body ext_raising c0 (initial_state 0) = (Some OutOfDomainError, state_raised)
   \<and> interactor_events (trace state_raised) = [EvInteractorTimeStep 1, EvInteractorCall]
   \<and> (\<exists>st1 w1. record_drag ext_raising c0 (initial_state 0) = (None, st1)
         \<and> interactor_time_step ext_raising 1 (world st1) = Inr w1
         \<and> interactor_call ext_raising w1 = Inl OutOfDomainError \<and> world state_raised = w1)
   \<and> run_loop (Suc (Suc (Suc 0))) ext0 c0 (initial_state 0) = (Finished, state2)
   \<and> completed_iterations ext0 c0 (initial_state 0) [state1, state2]
   \<and> step_dts (initial_state 0) [state1, state2] = [1, 1]
   \<and> interactor_events (trace state2) = coupling_calls [1, 1]
   \<and> world state2 = 22
   \<and> (\<exists>sts. completed_iterations ext0 c0 (initial_state 0) sts \<and> length sts \<le> 3
         \<and> interactor_events (trace state2) = coupling_calls (step_dts (initial_state 0) sts)
         \<and> state2 = last (initial_state 0 # sts))"
proof -
  have tr0: "interactor_events (trace (initial_state (0::nat))) = []"
    by (simp add: initial_state_def interactor_events_def)
  have guards: "sim_t (initial_state (0::nat)) < t_end c0" "sim_t state1 < t_end c0"
    by (simp_all add: initial_state_def state1_def c0_def)
  have ch: "completed_iterations ext0 c0 (initial_state 0) [state1, state2]"
    using guards loop_body_initial loop_body_state1 by simp
  have w: "interactor_time_step ext0 1 0 = Inr 1" "interactor_call ext0 1 = Inr 11"
    by (simp_all add: ext0_def)
  have w1: "world state1 = 11"
    and e1: "interactor_events (trace state1) = [EvInteractorTimeStep 1, EvInteractorCall]"
    by (simp_all add: state1_def interactor_events_def)
  have w2: "world state2 = 22"
    and e2: "interactor_events (trace state2) = coupling_calls [1, 1]"
    by (simp_all add: state2_def interactor_events_def coupling_calls_def)
  have er: "interactor_events (trace state_raised) = [EvInteractorTimeStep 1, EvInteractorCall]"
    by (simp add: state_raised_def interactor_events_def)
  have dts: "step_dts (initial_state 0) [state1, state2] = [1, 1]"
    by (simp add: initial_state_def state1_def state2_def)
  note inst = coupling_calls_once_per_iteration
    [of ext0 c0 "initial_state 0" state1 ValueError "Suc (Suc (Suc 0))" "initial_state 0"
        Finished state2]
  from inst [THEN conjunct1, THEN mp, OF loop_body_initial]
  obtain st1 dt w1 w2 where rd: "record_drag ext0 c0 (initial_state 0) = (None, st1)"
    and dt: "compute_stable_timestep ext0 0.25 (world st1) = Inr dt"
    and calls: "interactor_time_step ext0 dt (world st1) = Inr w1"
      "interactor_call ext0 w1 = Inr w2"
      "flow_sim_time_step ext0 dt [1, 0, 0] w2 = Inr (world state1)"
    by blast
  have "dt = 1"
    using dt by (simp add: ext0_def)
  with rd calls
  have one: "\<exists>st1 w1 w2. record_drag ext0 c0 (initial_state 0) = (None, st1)
         \<and> interactor_time_step ext0 1 (world st1) = Inr w1
         \<and> interactor_call ext0 w1 = Inr w2
         \<and> flow_sim_time_step ext0 1 [1, 0, 0] w2 = Inr (world state1)"
    by blast
  have "\<exists>sts. completed_iterations ext0 c0 (initial_state 0) sts
         \<and> length sts \<le> Suc (Suc (Suc 0))
         \<and> interactor_events (trace (last (initial_state 0 # sts))) =
              interactor_events (trace (initial_state (0::nat)))
                @ coupling_calls (step_dts (initial_state 0) sts)
         \<and> (state2 = last (initial_state 0 # sts) \<and> \<not> sim_t state2 < t_end c0)"
    using inst [THEN conjunct2, THEN conjunct2, THEN mp, OF run_loop_initial]
    unfolding outcome.case by assumption
  then obtain sts where c1: "completed_iterations ext0 c0 (initial_state 0) sts"
    and c2: "length sts \<le> Suc (Suc (Suc 0))"
    and c3: "interactor_events (trace (last (initial_state 0 # sts))) =
              interactor_events (trace (initial_state (0::nat)))
                @ coupling_calls (step_dts (initial_state 0) sts)"
    and c4: "state2 = last (initial_state 0 # sts)"
    by blast
  have c5: "interactor_events (trace state2) = coupling_calls (step_dts (initial_state 0) sts)"
    using c3 by (simp only: c4 [symmetric] tr0 append_Nil)
  have c6: "length sts \<le> 3"
    using c2 by (simp only: numeral_3_eq_3)
  have run: "\<exists>sts. completed_iterations ext0 c0 (initial_state 0) sts \<and> length sts \<le> 3
         \<and> interactor_events (trace state2) = coupling_calls (step_dts (initial_state 0) sts)
         \<and> state2 = last (initial_state 0 # sts)"
    using c1 c6 c5 c4 by blast
  note raised = coupling_calls_once_per_iteration
    [of ext_raising c0 "initial_state 0" state_raised OutOfDomainError 0 "initial_state 0"
        Finished "initial_state 0", THEN conjunct2, THEN conjunct1, THEN mp, OF loop_body_raising]
  have no_w2: "interactor_call ext_raising w \<noteq> Inr v" for w v
    by (simp add: ext_raising_def)
  have dt': "compute_stable_timestep ext_raising 0.25 w = Inr d \<Longrightarrow> d = 1" for w d
    by (simp add: ext_raising_def ext0_def)
  from raised
  have stopped: "\<exists>st1 w1. record_drag ext_raising c0 (initial_state 0) = (None, st1)
         \<and> interactor_time_step ext_raising 1 (world st1) = Inr w1
         \<and> interactor_call ext_raising w1 = Inl OutOfDomainError \<and> world state_raised = w1"
    unfolding er tr0 using no_w2 dt' by (elim disjE exE conjE) auto
  show ?thesis
    using loop_body_initial w w1 e1 one loop_body_raising er stopped run_loop_initial ch dts e2
      w2 run
    by (intro conjI) assumption+
qed

lemma constants0: "flow_past_sphere_constants (2, 2, 5) 100 = Inr c0"
  by (simp add: flow_past_sphere_constants_def c0_def Let_def)

lemma run_loop_not_entered:
  "\<not> 0 < t_end c \<Longrightarrow> run_loop n ext c (initial_state w) = (Finished, initial_state w)"
  by (cases n) (simp_all add: initial_state_def)

lemma coupling_step_drag_coeffs:
  "coupling_step ext st = (r, st') \<Longrightarrow> drag_coeffs st' = drag_coeffs st"
  by (auto simp: coupling_step_def Let_def split: sum.splits)

lemma flow_past_sphere_constants_Inr:
  assumes "flow_past_sphere_constants grid_size reynolds = Inr c"
  shows "rho_f c = 1" and "far_field_velocity c = 1"
    and "sphere_projected_area c = 0.25 * pi * (sphere_diameter c)\<^sup>2"
    and "drag_force_scale c = 0.5 * rho_f c * (far_field_velocity c)\<^sup>2 * sphere_projected_area c"
    and "t_end c = 10 * sphere_diameter c"
  using assms
  by (auto simp: flow_past_sphere_constants_def Let_def split: prod.splits if_splits)

text \<open>
  C6. In an iteration that records (the photo timer has run out, or is zero), the drag
  coefficient appended is the absolute value of the sum of row \<open>x_axis = 0\<close> of the Lagrangian
  forcing field, divided by \<open>0.5 * rho_f * far_field_velocity\<^sup>2 * sphere_projected_area\<close> with
  \<open>sphere_projected_area = 0.25 * pi * sphere_diameter\<^sup>2\<close>; the scale is not zero. The loop
  is entered at \<open>t = 0\<close>, so it runs only when \<open>0 < t_end\<close>.
\<close>

theorem drag_coefficient_recorded:
  assumes "flow_past_sphere_constants grid_size reynolds = Inr c"
      and "0 < t_end c"
      and "loop_body ext c st = (r, st')"
  shows "sphere_projected_area c = 0.25 * pi * (sphere_diameter c)\<^sup>2
       \<and> drag_force_scale c = 0.5 * rho_f c * (far_field_velocity c)\<^sup>2 * sphere_projected_area c
       \<and> drag_force_scale c \<noteq> 0
       \<and> ((foto_timer st > foto_timer_limit c \<or> foto_timer st = 0)
            \<and> lag_grid_forcing_field ext (world st) = row # rows \<longrightarrow>
           drag_coeffs st' = drag_coeffs st @
             [\<bar>sum_list row\<bar> / (0.5 * rho_f c * (far_field_velocity c)\<^sup>2
                                  * (0.25 * pi * (sphere_diameter c)\<^sup>2))])
       \<and> (\<not> (foto_timer st > foto_timer_limit c \<or> foto_timer st = 0) \<longrightarrow>
           drag_coeffs st' = drag_coeffs st)"
proof -
  note k = flow_past_sphere_constants_Inr [OF assms(1)]
  have d: "sphere_diameter c \<noteq> 0"
    using assms(2) k(5) by auto
  have scale: "drag_force_scale c \<noteq> 0"
    using d by (simp add: k)
  obtain r1 st1 where rd: "record_drag ext c st = (r1, st1)"
    by (cases "record_drag ext c st")
  have same: "drag_coeffs st' = drag_coeffs st1"
    using assms(3) rd coupling_step_drag_coeffs [of ext st1 r st']
    by (cases r1) (auto simp: loop_body_def)
  have taken: "drag_coeffs st1 = drag_coeffs st @ [\<bar>sum_list row\<bar> / drag_force_scale c]"
    if "foto_timer st > foto_timer_limit c \<or> foto_timer st = 0"
      and "lag_grid_forcing_field ext (world st) = row # rows"
    using rd that scale by (auto simp: record_drag_def Let_def split: sum.splits)
  have skipped: "drag_coeffs st1 = drag_coeffs st"
    if "\<not> (foto_timer st > foto_timer_limit c \<or> foto_timer st = 0)"
    using rd that by (auto simp: record_drag_def)
  show ?thesis
    using k(3,4) scale same taken skipped by (simp add: k(3,4))
qed

theorem drag_coefficient_recorded_witness:
  "flow_past_sphere_constants (2, 2, 5) 100 = Inr c0 \<and> 0 < t_end c0
   \<and> foto_timer (initial_state (0::nat)) = 0
   \<and> lag_grid_forcing_field ext0 (world (initial_state 0)) = [3, - 5] # [[0, 0], [0, 0]]
   \<and> drag_coeffs (snd (loop_body ext0 c0 (initial_state 0))) =
        [\<bar>sum_list [3, - 5]\<bar> / (0.5 * rho_f c0 * (far_field_velocity c0)\<^sup>2
                                  * (0.25 * pi * (sphere_diameter c0)\<^sup>2))]"
proof -
  have t: "0 < t_end c0" and f: "foto_timer (initial_state (0::nat)) = 0"
    and l: "lag_grid_forcing_field ext0 (world (initial_state 0)) = [3, - 5] # [[0, 0], [0, 0]]"
    and d: "drag_coeffs (initial_state (0::nat)) = []"
    by (simp_all add: c0_def initial_state_def ext0_def)
  have b: "loop_body ext0 c0 (initial_state 0) = (None, snd (loop_body ext0 c0 (initial_state 0)))"
    by (simp only: loop_body_initial snd_conv)
  from drag_coefficient_recorded [OF constants0 t b, of "[3, - 5]" "[[0, 0], [0, 0]]"] f l d
  have "drag_coeffs (snd (loop_body ext0 c0 (initial_state 0))) =
        [\<bar>sum_list [3, - 5]\<bar> / (0.5 * rho_f c0 * (far_field_velocity c0)\<^sup>2
                                  * (0.25 * pi * (sphere_diameter c0)\<^sup>2))]"
    by simp
  then show ?thesis
    using constants0 t f l by simp
qed

end
